theory Spec2Isabelle
  imports Main "HOL-Library.Word"
begin

section \<open>Strings and the library functions the package calls\<close>

text \<open>
  A Go string is a sequence of bytes, read as UTF-8 where runes matter; it is modelled
  as \<^typ>\<open>string\<close>, a list of 8-bit characters, so \<open>len(s)\<close> is \<^term>\<open>length s\<close>.
  The functions of this section belong to Go's \<^verbatim>\<open>strings\<close> and \<^verbatim>\<open>fmt\<close> packages, which
  \<^verbatim>\<open>repository.go\<close> imports.
\<close>

text \<open>\<^verbatim>\<open>strings.HasPrefix\<close>: \<^verbatim>\<open>len(s) >= len(prefix) && s[:len(prefix)] == prefix\<close>.\<close>

definition HasPrefix :: "string \<Rightarrow> string \<Rightarrow> bool" where
  "HasPrefix s pre = (length s \<ge> length pre \<and> take (length pre) s = pre)"

text \<open>\<^verbatim>\<open>strings.Join\<close>.\<close>

fun Join :: "string list \<Rightarrow> string \<Rightarrow> string" where
  "Join [] sep = []"
| "Join [x] sep = x"
| "Join (x # y # ys) sep = x @ sep @ Join (y # ys) sep"

text \<open>
  The UTF-8 encodings of the runes for which \<^verbatim>\<open>unicode.IsSpace\<close> holds: tab, line feed,
  vertical tab, form feed, carriage return, space, U+0085, U+00A0, U+1680,
  U+2000 to U+200A, U+2028, U+2029, U+202F, U+205F and U+3000.
\<close>

definition space_runes :: "string list" where
  "space_runes =
     [[CHR 0x09], [CHR 0x0A], [CHR 0x0B], [CHR 0x0C], [CHR 0x0D], [CHR 0x20],
      [CHR 0xC2, CHR 0x85], [CHR 0xC2, CHR 0xA0],
      [CHR 0xE1, CHR 0x9A, CHR 0x80],
      [CHR 0xE2, CHR 0x80, CHR 0x80], [CHR 0xE2, CHR 0x80, CHR 0x81],
      [CHR 0xE2, CHR 0x80, CHR 0x82], [CHR 0xE2, CHR 0x80, CHR 0x83],
      [CHR 0xE2, CHR 0x80, CHR 0x84], [CHR 0xE2, CHR 0x80, CHR 0x85],
      [CHR 0xE2, CHR 0x80, CHR 0x86], [CHR 0xE2, CHR 0x80, CHR 0x87],
      [CHR 0xE2, CHR 0x80, CHR 0x88], [CHR 0xE2, CHR 0x80, CHR 0x89],
      [CHR 0xE2, CHR 0x80, CHR 0x8A],
      [CHR 0xE2, CHR 0x80, CHR 0xA8], [CHR 0xE2, CHR 0x80, CHR 0xA9],
      [CHR 0xE2, CHR 0x80, CHR 0xAF], [CHR 0xE2, CHR 0x81, CHR 0x9F],
      [CHR 0xE3, CHR 0x80, CHR 0x80]]"

text \<open>
  The number of bytes of the rune in \<open>runes\<close> that the string starts with, 0 when it
  starts with none of them.
\<close>

definition leading_rune :: "string list \<Rightarrow> string \<Rightarrow> nat" where
  "leading_rune runes s =
     (case filter (\<lambda>r. HasPrefix s r) runes of [] \<Rightarrow> 0 | r # _ \<Rightarrow> length r)"

text \<open>
  \<^verbatim>\<open>strings.TrimLeftFunc\<close> decodes one rune after the other from the start and stops at
  the first for which the predicate fails (an invalid byte decodes to U+FFFD, which is no
  space); the loop drops the bytes of each leading rune of the list.
\<close>

fun trim_runes :: "string list \<Rightarrow> string \<Rightarrow> string" where
  "trim_runes runes [] = []"
| "trim_runes runes (c # cs) =
     (let n = leading_rune runes (c # cs)
      in if n = 0 then c # cs else trim_runes runes (drop (n - 1) cs))"

definition TrimLeft :: "string \<Rightarrow> string" where
  "TrimLeft s = trim_runes space_runes s"

text \<open>
  \<^verbatim>\<open>strings.TrimRightFunc\<close> decodes from the end (\<^verbatim>\<open>utf8.DecodeLastRuneInString\<close>): the
  same loop on the reversed string, with the encodings reversed.
\<close>

definition TrimRight :: "string \<Rightarrow> string" where
  "TrimRight s = rev (trim_runes (map rev space_runes) (rev s))"

text \<open>\<^verbatim>\<open>strings.TrimSpace\<close>: leading and trailing white space removed.\<close>

definition TrimSpace :: "string \<Rightarrow> string" where
  "TrimSpace s = TrimRight (TrimLeft s)"

text \<open>
  \<^verbatim>\<open>strings.ToUpper\<close> maps every rune through \<^verbatim>\<open>unicode.ToUpper\<close>. An ASCII letter
  \<^verbatim>\<open>a\<close> to \<^verbatim>\<open>z\<close> loses 32; the two runes outside ASCII whose upper case is an ASCII
  letter are U+017F (long s, bytes C5 BF, upper case \<^verbatim>\<open>S\<close>) and U+0131 (dotless i, bytes
  C4 B1, upper case \<^verbatim>\<open>I\<close>). Every other byte is kept as it is: Go writes some non-ASCII
  rune in its place, so the ASCII bytes of the result, up to the first non-ASCII byte, are
  those of Go's result, and a test for an ASCII prefix has the same outcome.
\<close>

definition upper_byte :: "char \<Rightarrow> char" where
  "upper_byte c =
     (if (of_char (CHR ''a'') :: nat) \<le> of_char c \<and> (of_char c :: nat) \<le> of_char (CHR ''z'')
      then char_of ((of_char c :: nat) - 32) else c)"

fun ToUpper :: "string \<Rightarrow> string" where
  "ToUpper [] = []"
| "ToUpper [c] = [upper_byte c]"
| "ToUpper (c # c' # cs) =
     (if c = CHR 0xC5 \<and> c' = CHR 0xBF then CHR ''S'' # ToUpper cs
      else if c = CHR 0xC4 \<and> c' = CHR 0xB1 then CHR ''I'' # ToUpper cs
      else upper_byte c # ToUpper (c' # cs))"

text \<open>The verb \<^verbatim>\<open>%d\<close> of \<^verbatim>\<open>fmt.Sprintf\<close> on an unsigned integer: its decimal digits.\<close>

definition digit_char :: "nat \<Rightarrow> char" where
  "digit_char n = char_of (of_char (CHR ''0'') + n)"

fun decimal :: "nat \<Rightarrow> string" where
  "decimal n = (if n < 10 then [digit_char n] else decimal (n div 10) @ [digit_char (n mod 10)])"

declare decimal.simps [simp del]

section \<open>Order direction\<close>

definition ascending :: string where
  "ascending = ''ASC''"

definition descending :: string where
  "descending = ''DESC''"

text \<open>\<^verbatim>\<open>ParseOrder\<close> (repository.go, lines 261 to 270).\<close>

definition ParseOrder :: "string \<Rightarrow> string" where
  "ParseOrder order0 =
     (let order = TrimSpace order0
      in if length order \<ge> 4
         then (if HasPrefix (ToUpper order) descending then descending else ascending)
         else ascending)"

section \<open>Values, errors and the record descriptor\<close>

text \<open>
  Go's \<^verbatim>\<open>int\<close> is taken at its width on the 64-bit targets; \<^verbatim>\<open>int64\<close> and \<^verbatim>\<open>uint64\<close>
  are 64 bits everywhere.
\<close>

type_synonym go_int = "64 word"
type_synonym int64 = "64 word"
type_synonym uint64 = "64 word"

text \<open>The constants of \<^verbatim>\<open>reflect.Kind\<close>, in the order of their declaration.\<close>

datatype kind =
    reflect_Invalid | reflect_Bool | reflect_Int | reflect_Int8 | reflect_Int16
  | reflect_Int32 | reflect_Int64 | reflect_Uint | reflect_Uint8 | reflect_Uint16
  | reflect_Uint32 | reflect_Uint64 | reflect_Uintptr | reflect_Float32 | reflect_Float64
  | reflect_Complex64 | reflect_Complex128 | reflect_Array | reflect_Chan | reflect_Func
  | reflect_Interface | reflect_Map | reflect_Pointer | reflect_Slice | reflect_String
  | reflect_Struct | reflect_UnsafePointer

text \<open>
  A value of type \<^verbatim>\<open>interface{}\<close>, by its dynamic type: the nil interface, a \<^verbatim>\<open>string\<close>,
  an \<^verbatim>\<open>int\<close>, a \<^verbatim>\<open>bool\<close>, an \<^verbatim>\<open>int64\<close> (the type of the \<open>id\<close> arguments), or a value
  of any other dynamic type (a \<^verbatim>\<open>float64\<close>, a named type such as \<^verbatim>\<open>json.Number\<close>, a typed
  nil pointer, ...). Of such a value the model keeps the kind that \<^verbatim>\<open>reflect\<close> reports for
  it and an opaque number; the code never inspects it.
\<close>

datatype go_value =
    Nil
  | GoString string
  | GoInt go_int
  | GoBool bool
  | GoInt64 int64
  | GoOther kind nat


text \<open>
  The error values the package tells apart: \<^verbatim>\<open>sql.ErrNoRows\<close> (also exported as
  \<^verbatim>\<open>ErrNoRows\<close>, line 38), \<^verbatim>\<open>ErrUnprocessable\<close> (line 187), and any other error, named
  by its message.
\<close>

datatype error = ErrNoRows | ErrUnprocessable | ErrOther string

text \<open>
  The interface \<^verbatim>\<open>Record\<close> gives a table name and a primary key; a record that also
  implements \<^verbatim>\<open>Sorted\<close> has \<open>SortBy = Some column\<close>.
\<close>

record Record =
  TableName :: string
  PrimaryKey :: string
  SortBy :: "string option"

section \<open>The database handle\<close>

text \<open>
  \<^verbatim>\<open>sql.Result\<close>: what its method \<^verbatim>\<open>RowsAffected\<close> returns, a count and an error. A nil
  \<^verbatim>\<open>sql.Result\<close> is \<^term>\<open>None\<close>.
\<close>

record sql_Result =
  RowsAffected :: "int64 \<times> error option"

text \<open>
  The interface \<^verbatim>\<open>Database\<close> is declared outside \<^verbatim>\<open>repository.go\<close>; the handle is a
  parameter of the model. It has a state of its own, of type \<open>'s\<close>, which each call may
  change. \<^verbatim>\<open>Select\<close> and \<^verbatim>\<open>Get\<close> receive a pointer to the destination: they are given
  its content, of type \<open>'d\<close>, and return the content they leave there, with the error
  (\<^term>\<open>None\<close> is a nil error). \<^verbatim>\<open>Exec\<close> returns a result and an error. The context
  argument only carries the caller's cancellation to the handle and is left out.
\<close>

record ('s, 'd) Database =
  Select :: "'s \<Rightarrow> 'd \<Rightarrow> string \<Rightarrow> go_value list \<Rightarrow> 's \<times> 'd \<times> error option"
  Get :: "'s \<Rightarrow> 'd \<Rightarrow> string \<Rightarrow> go_value list \<Rightarrow> 's \<times> 'd \<times> error option"
  Exec :: "'s \<Rightarrow> string \<Rightarrow> go_value list \<Rightarrow> 's \<times> sql_Result option \<times> error option"

text \<open>
  Every call of a method of the handle is recorded, with its query and its arguments,
  after the calls made before: a connection is the handle's state with that list.
\<close>

datatype db_call =
    CallSelect string "go_value list"
  | CallGet string "go_value list"
  | CallExec string "go_value list"

type_synonym 's conn = "'s \<times> db_call list"

definition db_Select ::
  "('s, 'd) Database \<Rightarrow> 's conn \<Rightarrow> 'd \<Rightarrow> string \<Rightarrow> go_value list \<Rightarrow> 's conn \<times> 'd \<times> error option"
where
  "db_Select h c dest q args =
     (case Select h (fst c) dest q args of
        (s', dest', err) \<Rightarrow> ((s', snd c @ [CallSelect q args]), dest', err))"

definition db_Get ::
  "('s, 'd) Database \<Rightarrow> 's conn \<Rightarrow> 'd \<Rightarrow> string \<Rightarrow> go_value list \<Rightarrow> 's conn \<times> 'd \<times> error option"
where
  "db_Get h c dest q args =
     (case Get h (fst c) dest q args of
        (s', dest', err) \<Rightarrow> ((s', snd c @ [CallGet q args]), dest', err))"

definition db_Exec ::
  "('s, 'd) Database \<Rightarrow> 's conn \<Rightarrow> string \<Rightarrow> go_value list
     \<Rightarrow> 's conn \<times> sql_Result option \<times> error option"
where
  "db_Exec h c q args =
     (case Exec h (fst c) q args of
        (s', res, err) \<Rightarrow> ((s', snd c @ [CallExec q args]), res, err))"

section \<open>The repository\<close>

record ('s, 'd) Repository =
  db :: "('s, 'd) Database"
  rec :: Record

text \<open>\<^verbatim>\<open>GetAffectedRows\<close> (lines 245 to 252); \<^verbatim>\<open>int(n)\<close> is the conversion to \<^verbatim>\<open>int\<close>.\<close>

definition GetAffectedRows :: "sql_Result option \<Rightarrow> go_int" where
  "GetAffectedRows result =
     (case result of
        None \<Rightarrow> 0
      | Some res \<Rightarrow> (case RowsAffected res of (n, _) \<Rightarrow> scast n))"

text \<open>
  \<^verbatim>\<open>Count\<close> (lines 41 to 47). The named result \<open>total\<close> starts at 0 and its address is
  the destination of \<^verbatim>\<open>Select\<close>.
\<close>

definition Count :: "('s, int64) Repository \<Rightarrow> 's conn \<Rightarrow> 's conn \<times> int64 \<times> error option" where
  "Count r c =
     (let q = ''SELECT COUNT(DISTINCT '' @ PrimaryKey (rec r) @ '') FROM '' @ TableName (rec r)
      in case db_Select (db r) c 0 q [] of
           (c', total', err) \<Rightarrow> (c', total', if err = Some ErrNoRows then None else err))"

text \<open>\<^verbatim>\<open>GetByID\<close> (lines 50 to 54).\<close>

definition GetByID ::
  "('s, 'd) Repository \<Rightarrow> 's conn \<Rightarrow> 'd \<Rightarrow> int64 \<Rightarrow> 's conn \<times> 'd \<times> error option"
where
  "GetByID r c dest id' =
     (let q = ''SELECT * FROM '' @ TableName (rec r) @ '' WHERE '' @ PrimaryKey (rec r)
                @ '' = ? LIMIT 1''
      in db_Get (db r) c dest q [GoInt64 id'])"

text \<open>
  A Go map is iterated in an order the language leaves open. A map is modelled as the
  list of its entries in the order in which the \<^verbatim>\<open>range\<close> loop visits them, its keys
  distinct; a statement about every list is a statement about every order. \<open>len(m)\<close> is
  the length of the list and \<open>m[key]\<close> is \<^term>\<open>map_of m key\<close>.
\<close>

type_synonym 'v go_map = "(string \<times> 'v) list"

text \<open>The loop of \<^verbatim>\<open>GetByAttrs\<close> (lines 66 to 69), on \<open>keyLines\<close> and \<open>values\<close>.\<close>

fun GetByAttrs_loop ::
  "go_value go_map \<Rightarrow> string list \<times> go_value list \<Rightarrow> string list \<times> go_value list"
where
  "GetByAttrs_loop [] acc = acc"
| "GetByAttrs_loop ((k, v) # rest) (keyLines, vals) =
     GetByAttrs_loop rest (keyLines @ [k @ '' = ?''], vals @ [v])"

text \<open>\<^verbatim>\<open>GetByAttrs\<close> (lines 56 to 84).\<close>

definition GetByAttrs ::
  "('s, 'd) Repository \<Rightarrow> 's conn \<Rightarrow> 'd \<Rightarrow> go_value go_map \<Rightarrow> 's conn \<times> 'd \<times> error option"
where
  "GetByAttrs r c dest attrs =
     (if length attrs = 0 then (c, dest, None)
      else case GetByAttrs_loop attrs ([], []) of
        (keyLines, vals) \<Rightarrow>
          if length vals = 0 then (c, dest, None)
          else
            let q = ''SELECT * FROM '' @ TableName (rec r) @ '' WHERE ''
                      @ Join keyLines '', '' @ '';''
            in case db_Get (db r) c dest q vals of
                 (c', dest', err) \<Rightarrow>
                   (case err of Some e \<Rightarrow> (c', dest', Some e) | None \<Rightarrow> (c', dest', None)))"

text \<open>\<^verbatim>\<open>GetAll\<close> (lines 86 to 90).\<close>

definition GetAll :: "('s, 'd) Repository \<Rightarrow> 's conn \<Rightarrow> 'd \<Rightarrow> 's conn \<times> 'd \<times> error option" where
  "GetAll r c dest = db_Get (db r) c dest (''SELECT * FROM '' @ TableName (rec r)) []"

text \<open>\<^verbatim>\<open>DeleteByID\<close> (lines 93 to 101).\<close>

definition DeleteByID ::
  "('s, 'd) Repository \<Rightarrow> 's conn \<Rightarrow> int64 \<Rightarrow> 's conn \<times> go_int \<times> error option"
where
  "DeleteByID r c id' =
     (let q = ''DELETE FROM '' @ TableName (rec r) @ '' WHERE '' @ PrimaryKey (rec r)
                @ '' = ? LIMIT 1''
      in case db_Exec (db r) c q [GoInt64 id'] of
           (c', res, err) \<Rightarrow>
             (case err of
                Some e \<Rightarrow> (c', 0, Some e)
              | None \<Rightarrow> (c', GetAffectedRows res, None)))"

section \<open>List options\<close>

record ListOptions =
  Table :: string
  Offset :: uint64
  Limit :: uint64
  OrderByColumn :: string
  Order :: string
  WhereColumn :: string
  WhereValue :: go_value

text \<open>\<^verbatim>\<open>ListOptions.Where\<close> (lines 118 to 122).\<close>

definition Where :: "ListOptions \<Rightarrow> string \<Rightarrow> go_value \<Rightarrow> ListOptions" where
  "Where opt colName colValue = opt\<lparr>WhereColumn := colName, WhereValue := colValue\<rparr>"

text \<open>
  \<^verbatim>\<open>ListOptions.BuildQuery\<close> (lines 126 to 147): \<open>q\<close> and \<open>args\<close> are extended by one
  conditional after the other.
\<close>

definition BuildQuery :: "ListOptions \<Rightarrow> string \<times> go_value list" where
  "BuildQuery opt =
     (let q = ''SELECT * FROM '' @ Table opt;
          args = [];
          (q, args) =
            (if WhereColumn opt \<noteq> '''' \<and> WhereValue opt \<noteq> Nil
             then (q @ '' WHERE '' @ WhereColumn opt @ '' = ?'', args @ [WhereValue opt])
             else (q, args));
          q = (if OrderByColumn opt \<noteq> ''''
               then q @ '' ORDER BY '' @ OrderByColumn opt @ '' '' @ ParseOrder (Order opt)
               else q);
          q = (if Limit opt > 0 then q @ '' LIMIT '' @ decimal (unat (Limit opt)) else q);
          q = (if Offset opt > 0 then q @ '' OFFSET '' @ decimal (unat (Offset opt)) else q)
      in (q, args))"

text \<open>\<^verbatim>\<open>List\<close> (lines 164 to 179).\<close>

definition List ::
  "('s, 'd) Repository \<Rightarrow> 's conn \<Rightarrow> 'd \<Rightarrow> ListOptions \<Rightarrow> 's conn \<times> 'd \<times> error option"
where
  "List r c dest opts0 =
     (let opts = (if Table opts0 = '''' then opts0\<lparr>Table := TableName (rec r)\<rparr> else opts0);
          opts = (if OrderByColumn opts = ''''
                  then (case SortBy (rec r) of
                          Some b \<Rightarrow> opts\<lparr>OrderByColumn := b\<rparr>
                        | None \<Rightarrow> opts)
                  else opts)
      in case BuildQuery opts of (q, args) \<Rightarrow> db_Select (db r) c dest q args)"

section \<open>Partial update\<close>

text \<open>
  The type switch of \<^verbatim>\<open>PartialUpdate\<close> (lines 208 to 221): true when the value falls in
  one of the three cases and the kind of the schema is not the one of that case.
\<close>

fun kind_mismatch :: "go_value \<Rightarrow> kind \<Rightarrow> bool" where
  "kind_mismatch (GoString _) k = (k \<noteq> reflect_String)"
| "kind_mismatch (GoInt _) k = (k \<noteq> reflect_Int)"
| "kind_mismatch (GoBool _) k = (k \<noteq> reflect_Bool)"
| "kind_mismatch _ k = False"

text \<open>
  The loop over the schema (lines 202 to 225): a key without attribute is skipped, a
  mismatch returns at once, any other attribute is appended.
\<close>

fun PartialUpdate_loop ::
  "kind go_map \<Rightarrow> go_value go_map \<Rightarrow> string list \<times> go_value list
     \<Rightarrow> error + string list \<times> go_value list"
where
  "PartialUpdate_loop [] attrs acc = Inr acc"
| "PartialUpdate_loop ((key, knd) # rest) attrs (keyLines, vals) =
     (case map_of attrs key of
        None \<Rightarrow> PartialUpdate_loop rest attrs (keyLines, vals)
      | Some v \<Rightarrow>
          if kind_mismatch v knd then Inl ErrUnprocessable
          else PartialUpdate_loop rest attrs (keyLines @ [key @ '' = ?''], vals @ [v]))"

text \<open>\<^verbatim>\<open>PartialUpdate\<close> (lines 192 to 241).\<close>

definition PartialUpdate ::
  "('s, 'd) Repository \<Rightarrow> 's conn \<Rightarrow> int64 \<Rightarrow> kind go_map \<Rightarrow> go_value go_map
     \<Rightarrow> 's conn \<times> go_int \<times> error option"
where
  "PartialUpdate r c id' schema attrs =
     (if length schema = 0 \<or> length attrs = 0 then (c, 0, None)
      else case PartialUpdate_loop schema attrs ([], []) of
        Inl e \<Rightarrow> (c, 0, Some e)
      | Inr (keyLines, vals) \<Rightarrow>
          if length vals = 0 then (c, 0, None)
          else
            let q = ''UPDATE '' @ TableName (rec r) @ '' SET '' @ Join keyLines '', ''
                      @ '' WHERE '' @ PrimaryKey (rec r) @ '' = ?;''
            in case db_Exec (db r) c q (vals @ [GoInt64 id']) of
                 (c', res, err) \<Rightarrow>
                   (case err of
                      Some e \<Rightarrow> (c', 0, Some e)
                    | None \<Rightarrow> (c', GetAffectedRows res, None)))"

section \<open>Properties of \<open>TrimSpace\<close>\<close>

text \<open>
  What the loop removes is a sequence of runes of the list, and what it returns starts
  with none of them.
\<close>

lemma leading_rune_cases:
  "leading_rune runes s = 0
   \<or> (\<exists>r \<in> set runes. HasPrefix s r \<and> leading_rune runes s = length r)"
proof (cases "filter (\<lambda>r. HasPrefix s r) runes")
  case Nil
  then show ?thesis by (simp add: leading_rune_def)
next
  case (Cons r rs)
  then have "r \<in> set (filter (\<lambda>r. HasPrefix s r) runes)" by simp
  then have "r \<in> set runes" "HasPrefix s r" by simp_all
  moreover from Cons have "leading_rune runes s = length r" by (simp add: leading_rune_def)
  ultimately show ?thesis by blast
qed

lemma leading_rune_zero:
  assumes "leading_rune runes s = 0" "r \<in> set runes" "HasPrefix s r"
  shows "\<exists>r' \<in> set runes. r' = []"
proof (cases "filter (\<lambda>r. HasPrefix s r) runes")
  case Nil
  moreover from assms(2,3) have "r \<in> set (filter (\<lambda>r. HasPrefix s r) runes)" by simp
  ultimately show ?thesis by simp
next
  case (Cons r' rs)
  then have "r' \<in> set (filter (\<lambda>r. HasPrefix s r) runes)" by simp
  then have "r' \<in> set runes" by simp
  moreover from Cons assms(1) have "r' = []" by (simp add: leading_rune_def)
  ultimately show ?thesis by blast
qed

lemma HasPrefix_take: "HasPrefix s r \<Longrightarrow> take (length r) s = r"
  by (simp add: HasPrefix_def)

lemma trim_runes_suffix:
  "\<exists>rs. set rs \<subseteq> set runes \<and> s = concat rs @ trim_runes runes s"
proof (induction runes s rule: trim_runes.induct)
  case (1 runes)
  have "set [] \<subseteq> set runes \<and> [] = concat [] @ trim_runes runes []" by simp
  then show ?case by (rule exI)
next
  case (2 runes c cs)
  let ?n = "leading_rune runes (c # cs)"
  show ?case
  proof (cases "?n = 0")
    case True
    then have "set [] \<subseteq> set runes \<and> c # cs = concat [] @ trim_runes runes (c # cs)"
      by simp
    then show ?thesis by (rule exI)
  next
    case False
    with 2 obtain rs where rs: "set rs \<subseteq> set runes"
      "drop (?n - 1) cs = concat rs @ trim_runes runes (drop (?n - 1) cs)"
      by blast
    from False obtain r where r: "r \<in> set runes" "HasPrefix (c # cs) r" "?n = length r"
      using leading_rune_cases [of runes "c # cs"] by auto
    from r(2,3) have "take ?n (c # cs) = r" by (simp add: HasPrefix_take)
    moreover from False have "drop ?n (c # cs) = drop (?n - 1) cs"
      by (cases ?n) simp_all
    ultimately have "c # cs = r @ drop (?n - 1) cs"
      by (metis append_take_drop_id)
    with rs(2) have "c # cs = concat (r # rs) @ trim_runes runes (drop (?n - 1) cs)"
      by simp
    moreover from False have "trim_runes runes (c # cs) = trim_runes runes (drop (?n - 1) cs)"
      by (simp add: Let_def)
    moreover from r(1) rs(1) have "set (r # rs) \<subseteq> set runes" by simp
    ultimately have "set (r # rs) \<subseteq> set runes
        \<and> c # cs = concat (r # rs) @ trim_runes runes (c # cs)"
      by simp
    then show ?thesis by (rule exI)
  qed
qed

lemma trim_runes_no_leading: "leading_rune runes (trim_runes runes s) = 0"
proof (induction runes s rule: trim_runes.induct)
  case (1 runes)
  show ?case
    using leading_rune_cases [of runes "[]"] by (auto simp: HasPrefix_def)
next
  case (2 runes c cs)
  then show ?case by (cases "leading_rune runes (c # cs) = 0") (simp_all add: Let_def)
qed

text \<open>
  \<open>TrimSpace\<close> returns its argument without a sequence of white-space runes at the
  start and another at the end, and the result neither starts nor ends with such a rune.
\<close>

lemma space_runes_nonempty: "r \<in> set space_runes \<Longrightarrow> r \<noteq> []"
  by (auto simp: space_runes_def)

lemma TrimRight_prefix:
  "\<exists>rs. set rs \<subseteq> set space_runes \<and> t = TrimRight t @ concat rs"
proof -
  obtain rs' where rs': "set rs' \<subseteq> set (map rev space_runes)"
      "rev t = concat rs' @ trim_runes (map rev space_runes) (rev t)"
    using trim_runes_suffix by blast
  from rs'(2) have "rev (rev t) = rev (concat rs' @ rev (TrimRight t))"
    by (simp add: TrimRight_def)
  then have "t = TrimRight t @ concat (map rev (rev rs'))"
    by (simp add: rev_concat)
  moreover from rs'(1) have "set (map rev (rev rs')) \<subseteq> set space_runes"
    by auto
  ultimately show ?thesis by blast
qed

lemma TrimSpace_part:
  "\<exists>ls rs. set ls \<subseteq> set space_runes \<and> set rs \<subseteq> set space_runes
     \<and> s = concat ls @ TrimSpace s @ concat rs"
proof -
  obtain ls where ls: "set ls \<subseteq> set space_runes" "s = concat ls @ TrimLeft s"
    using trim_runes_suffix [of space_runes s] by (auto simp: TrimLeft_def)
  obtain rs where rs: "set rs \<subseteq> set space_runes"
      "TrimLeft s = TrimRight (TrimLeft s) @ concat rs"
    using TrimRight_prefix by blast
  from ls(2) rs(2) have "s = concat ls @ TrimSpace s @ concat rs"
    by (simp add: TrimSpace_def)
  with ls(1) rs(1) show ?thesis by blast
qed

lemma TrimSpace_no_space_at_end:
  "leading_rune (map rev space_runes) (rev (TrimSpace s)) = 0"
  by (simp add: TrimSpace_def TrimRight_def trim_runes_no_leading)

lemma HasPrefix_append: "HasPrefix u r \<Longrightarrow> HasPrefix (u @ v) r"
  by (auto simp: HasPrefix_def)

lemma TrimSpace_no_space_at_start:
  "leading_rune space_runes (TrimSpace s) = 0"
proof (rule ccontr)
  assume "leading_rune space_runes (TrimSpace s) \<noteq> 0"
  then obtain r where r: "r \<in> set space_runes" "HasPrefix (TrimSpace s) r"
    using leading_rune_cases [of space_runes "TrimSpace s"] by auto
  obtain rs where "TrimLeft s = TrimRight (TrimLeft s) @ concat rs"
    using TrimRight_prefix by blast
  then have "TrimLeft s = TrimSpace s @ concat rs" by (simp add: TrimSpace_def)
  with r(2) have "HasPrefix (TrimLeft s) r" by (simp add: HasPrefix_append)
  moreover have "leading_rune space_runes (TrimLeft s) = 0"
    by (simp add: TrimLeft_def trim_runes_no_leading)
  ultimately have "\<exists>r' \<in> set space_runes. r' = []"
    using r(1) leading_rune_zero by blast
  then show False using space_runes_nonempty by blast
qed

section \<open>Properties of \<open>ParseOrder\<close>\<close>

text \<open>
  The bytes that \<^const>\<open>upper_byte\<close> sends to a capital letter are that letter and its
  small form.
\<close>

lemma upper_byte_eq_iff:
  assumes "(65::nat) \<le> of_char u" "(of_char u :: nat) \<le> 90"
  shows "upper_byte c = u \<longleftrightarrow> c = u \<or> c = char_of ((of_char u :: nat) + 32)"
proof (cases "(97::nat) \<le> of_char c \<and> (of_char c :: nat) \<le> 122")
  case True
  then have ub: "upper_byte c = char_of ((of_char c :: nat) - 32)"
    by (simp add: upper_byte_def)
  have ne: "c \<noteq> u" using True assms by auto
  show ?thesis
  proof
    assume "upper_byte c = u"
    then have "(of_char (char_of ((of_char c :: nat) - 32)) :: nat) = of_char u"
      using ub by simp
    moreover have "(of_char c :: nat) - 32 < 256" using True by linarith
    ultimately have "(of_char c :: nat) - 32 = of_char u"
      by simp
    then have "(of_char c :: nat) = of_char u + 32" using True by linarith
    then have "char_of (of_char c :: nat) = char_of ((of_char u :: nat) + 32)" by simp
    then show "c = u \<or> c = char_of ((of_char u :: nat) + 32)" by simp
  next
    assume "c = u \<or> c = char_of ((of_char u :: nat) + 32)"
    then have c: "c = char_of ((of_char u :: nat) + 32)" using ne by simp
    have "(of_char c :: nat) = of_char u + 32" unfolding c using assms by simp
    then show "upper_byte c = u" using ub by simp
  qed
next
  case False
  then have ub: "upper_byte c = c" by (auto simp add: upper_byte_def)
  have "c \<noteq> char_of ((of_char u :: nat) + 32)"
  proof
    assume c: "c = char_of ((of_char u :: nat) + 32)"
    have "(of_char c :: nat) = of_char u + 32" unfolding c using assms by simp
    then show False using False assms by simp
  qed
  then show ?thesis using ub by auto
qed

lemma upper_byte_D: "upper_byte c = CHR ''D'' \<longleftrightarrow> c = CHR ''D'' \<or> c = CHR ''d''"
proof -
  have "char_of (100::nat) = CHR ''d''" by code_simp
  then show ?thesis using upper_byte_eq_iff [of "CHR ''D''" c] by simp
qed

lemma upper_byte_E: "upper_byte c = CHR ''E'' \<longleftrightarrow> c = CHR ''E'' \<or> c = CHR ''e''"
proof -
  have "char_of (101::nat) = CHR ''e''" by code_simp
  then show ?thesis using upper_byte_eq_iff [of "CHR ''E''" c] by simp
qed

lemma upper_byte_S: "upper_byte c = CHR ''S'' \<longleftrightarrow> c = CHR ''S'' \<or> c = CHR ''s''"
proof -
  have "char_of (115::nat) = CHR ''s''" by code_simp
  then show ?thesis using upper_byte_eq_iff [of "CHR ''S''" c] by simp
qed

lemma upper_byte_C: "upper_byte c = CHR ''C'' \<longleftrightarrow> c = CHR ''C'' \<or> c = CHR ''c''"
proof -
  have "char_of (99::nat) = CHR ''c''" by code_simp
  then show ?thesis using upper_byte_eq_iff [of "CHR ''C''" c] by simp
qed

lemma upper_byte_lead [simp]:
  "upper_byte (CHR 0xC5) = CHR 0xC5" "upper_byte (CHR 0xC4) = CHR 0xC4"
  by (simp_all add: upper_byte_def)

lemma ToUpper_eq_D:
  "ToUpper t = CHR ''D'' # ys \<longleftrightarrow>
     (\<exists>cs. (t = CHR ''D'' # cs \<or> t = CHR ''d'' # cs) \<and> ToUpper cs = ys)"
  by (cases t rule: ToUpper.cases) (auto simp: upper_byte_D)

lemma ToUpper_eq_E:
  "ToUpper t = CHR ''E'' # ys \<longleftrightarrow>
     (\<exists>cs. (t = CHR ''E'' # cs \<or> t = CHR ''e'' # cs) \<and> ToUpper cs = ys)"
  by (cases t rule: ToUpper.cases) (auto simp: upper_byte_E)

lemma ToUpper_eq_C:
  "ToUpper t = CHR ''C'' # ys \<longleftrightarrow>
     (\<exists>cs. (t = CHR ''C'' # cs \<or> t = CHR ''c'' # cs) \<and> ToUpper cs = ys)"
  by (cases t rule: ToUpper.cases) (auto simp: upper_byte_C)

lemma ToUpper_eq_S:
  "ToUpper t = CHR ''S'' # ys \<longleftrightarrow>
     (\<exists>cs. (t = CHR ''S'' # cs \<or> t = CHR ''s'' # cs \<or> t = CHR 0xC5 # CHR 0xBF # cs)
        \<and> ToUpper cs = ys)"
  by (cases t rule: ToUpper.cases) (auto simp: upper_byte_S)

lemma HasPrefix_DESC:
  "HasPrefix u ''DESC'' \<longleftrightarrow> (\<exists>ys. u = CHR ''D'' # CHR ''E'' # CHR ''S'' # CHR ''C'' # ys)"
proof
  assume "HasPrefix u ''DESC''"
  then have "take (length ''DESC'') u = ''DESC''" by (simp only: HasPrefix_def)
  then have "u = ''DESC'' @ drop (length ''DESC'') u" by (metis append_take_drop_id)
  then show "\<exists>ys. u = CHR ''D'' # CHR ''E'' # CHR ''S'' # CHR ''C'' # ys" by auto
next
  assume "\<exists>ys. u = CHR ''D'' # CHR ''E'' # CHR ''S'' # CHR ''C'' # ys"
  then show "HasPrefix u ''DESC''" by (auto simp: HasPrefix_def)
qed

lemma ToUpper_DESC:
  "HasPrefix (ToUpper t) ''DESC'' \<longleftrightarrow>
     (\<exists>d e z c rest. t = d @ e @ z @ c @ rest
        \<and> d \<in> {''D'', ''d''} \<and> e \<in> {''E'', ''e''}
        \<and> z \<in> {''S'', ''s'', [CHR 0xC5, CHR 0xBF]} \<and> c \<in> {''C'', ''c''})"
  (is "?L \<longleftrightarrow> ?R")
proof
  assume ?L
  then obtain ys where "ToUpper t = CHR ''D'' # CHR ''E'' # CHR ''S'' # CHR ''C'' # ys"
    by (auto simp: HasPrefix_DESC)
  then obtain t1 where t: "t = ''D'' @ t1 \<or> t = ''d'' @ t1"
      and 1: "ToUpper t1 = CHR ''E'' # CHR ''S'' # CHR ''C'' # ys"
    by (auto simp: ToUpper_eq_D)
  from 1 obtain t2 where t1: "t1 = ''E'' @ t2 \<or> t1 = ''e'' @ t2"
      and 2: "ToUpper t2 = CHR ''S'' # CHR ''C'' # ys"
    by (auto simp: ToUpper_eq_E)
  from 2 obtain t3 where t2: "t2 = ''S'' @ t3 \<or> t2 = ''s'' @ t3 \<or> t2 = [CHR 0xC5, CHR 0xBF] @ t3"
      and 3: "ToUpper t3 = CHR ''C'' # ys"
    by (auto simp: ToUpper_eq_S)
  from 3 obtain t4 where t3: "t3 = ''C'' @ t4 \<or> t3 = ''c'' @ t4"
    by (auto simp: ToUpper_eq_C)
  from t obtain d where d: "d \<in> {''D'', ''d''}" "t = d @ t1" by blast
  from t1 obtain e where e: "e \<in> {''E'', ''e''}" "t1 = e @ t2" by blast
  from t2 obtain z where z: "z \<in> {''S'', ''s'', [CHR 0xC5, CHR 0xBF]}" "t2 = z @ t3" by blast
  from t3 obtain c where c: "c \<in> {''C'', ''c''}" "t3 = c @ t4" by blast
  from d e z c have "t = d @ e @ z @ c @ t4" by simp
  with d e z c show ?R by blast
next
  assume ?R
  then obtain d e z c rest where t: "t = d @ e @ z @ c @ rest"
    and d': "d \<in> {''D'', ''d''}" and e': "e \<in> {''E'', ''e''}"
    and z': "z \<in> {''S'', ''s'', [CHR 0xC5, CHR 0xBF]}" and c': "c \<in> {''C'', ''c''}"
    by blast
  from d' have d: "d = ''D'' \<or> d = ''d''" by simp
  from e' have e: "e = ''E'' \<or> e = ''e''" by simp
  from z' have z: "z = ''S'' \<or> z = ''s'' \<or> z = [CHR 0xC5, CHR 0xBF]" by simp
  from c' have c: "c = ''C'' \<or> c = ''c''" by simp
  have 4: "ToUpper (c @ rest) = CHR ''C'' # ToUpper rest"
    using c by (auto simp: ToUpper_eq_C)
  have 3: "ToUpper (z @ c @ rest) = CHR ''S'' # ToUpper (c @ rest)"
    using z by (auto simp: ToUpper_eq_S)
  have 2: "ToUpper (e @ z @ c @ rest) = CHR ''E'' # ToUpper (z @ c @ rest)"
    using e by (auto simp: ToUpper_eq_E)
  have 1: "ToUpper (d @ e @ z @ c @ rest) = CHR ''D'' # ToUpper (e @ z @ c @ rest)"
    using d by (auto simp: ToUpper_eq_D)
  show ?L unfolding HasPrefix_DESC t 1 2 3 4 by blast
qed

text \<open>
  Claim C5. \<open>ParseOrder\<close> trims the white space around its argument and returns
  \<open>DESC\<close> exactly when the trimmed string has at least 4 bytes and starts with the
  letters D, E, S, C, each in either case (the long s, U+017F, is a small form of S: Go's
  \<open>ToUpper\<close> sends it to \<open>S\<close>); for every other string it returns \<open>ASC\<close>. So
  \<open>Descending\<close> gives \<open>DESC\<close>, also between blanks, and \<open>asc\<close>, the empty string and
  \<open>d\<close> give \<open>ASC\<close>.
\<close>

theorem ParseOrder_desc_iff_prefix:
  "ParseOrder s =
     (if 4 \<le> length (TrimSpace s)
         \<and> (\<exists>d e z c rest. TrimSpace s = d @ e @ z @ c @ rest
               \<and> d \<in> {''D'', ''d''} \<and> e \<in> {''E'', ''e''}
               \<and> z \<in> {''S'', ''s'', [CHR 0xC5, CHR 0xBF]} \<and> c \<in> {''C'', ''c''})
      then ''DESC'' else ''ASC'')
   \<and> ParseOrder ''Descending'' = ''DESC''
   \<and> ParseOrder ''  Descending  '' = ''DESC''
   \<and> ParseOrder ''asc'' = ''ASC''
   \<and> ParseOrder '''' = ''ASC''
   \<and> ParseOrder ''d'' = ''ASC''"
proof -
  have general: "ParseOrder s =
     (if 4 \<le> length (TrimSpace s)
         \<and> (\<exists>d e z c rest. TrimSpace s = d @ e @ z @ c @ rest
               \<and> d \<in> {''D'', ''d''} \<and> e \<in> {''E'', ''e''}
               \<and> z \<in> {''S'', ''s'', [CHR 0xC5, CHR 0xBF]} \<and> c \<in> {''C'', ''c''})
      then ''DESC'' else ''ASC'')"
    unfolding ParseOrder_def Let_def descending_def ascending_def ToUpper_DESC
    by simp
  have 1: "ParseOrder ''Descending'' = ''DESC''" by code_simp
  have 2: "ParseOrder ''  Descending  '' = ''DESC''" by code_simp
  have 3: "ParseOrder ''asc'' = ''ASC''" by code_simp
  have 4: "ParseOrder '''' = ''ASC''" by code_simp
  have 5: "ParseOrder ''d'' = ''ASC''" by code_simp
  from general 1 2 3 4 5 show ?thesis by (intro conjI)
qed

section \<open>Properties of \<open>BuildQuery\<close>\<close>

text \<open>The query and the arguments of \<open>BuildQuery\<close>, clause by clause.\<close>

lemma BuildQuery_closed_form:
  "BuildQuery opt =
     (''SELECT * FROM '' @ Table opt
        @ (if WhereColumn opt \<noteq> '''' \<and> WhereValue opt \<noteq> Nil
           then '' WHERE '' @ WhereColumn opt @ '' = ?'' else '''')
        @ (if OrderByColumn opt \<noteq> ''''
           then '' ORDER BY '' @ OrderByColumn opt @ '' '' @ ParseOrder (Order opt) else '''')
        @ (if Limit opt > 0 then '' LIMIT '' @ decimal (unat (Limit opt)) else '''')
        @ (if Offset opt > 0 then '' OFFSET '' @ decimal (unat (Offset opt)) else ''''),
      if WhereColumn opt \<noteq> '''' \<and> WhereValue opt \<noteq> Nil then [WhereValue opt] else [])"
  by (simp add: BuildQuery_def Let_def)

text \<open>
  Claim C2. \<open>BuildQuery\<close> is a function of the options alone, and its query is the
  table clause followed by the filter, the order, the limit and the offset, in this
  order, each present under its own condition; the arguments are the filter value or
  nothing. For the options of the spec's example (the Go constant \<open>5\<close> is an \<open>int\<close>) it
  returns the query and the argument list that the spec gives.
\<close>

theorem BuildQuery_clause_order:
  "BuildQuery opt =
     (''SELECT * FROM '' @ Table opt
        @ (if WhereColumn opt \<noteq> '''' \<and> WhereValue opt \<noteq> Nil
           then '' WHERE '' @ WhereColumn opt @ '' = ?'' else '''')
        @ (if OrderByColumn opt \<noteq> ''''
           then '' ORDER BY '' @ OrderByColumn opt @ '' '' @ ParseOrder (Order opt) else '''')
        @ (if Limit opt > 0 then '' LIMIT '' @ decimal (unat (Limit opt)) else '''')
        @ (if Offset opt > 0 then '' OFFSET '' @ decimal (unat (Offset opt)) else ''''),
      if WhereColumn opt \<noteq> '''' \<and> WhereValue opt \<noteq> Nil then [WhereValue opt] else [])
   \<and> BuildQuery \<lparr>Table = ''users'', Offset = 20, Limit = 10, OrderByColumn = ''name'',
                   Order = ''desc'', WhereColumn = ''id'', WhereValue = GoInt 5\<rparr>
       = (''SELECT * FROM users WHERE id = ? ORDER BY name DESC LIMIT 10 OFFSET 20'',
          [GoInt 5])"
proof -
  have example:
    "BuildQuery \<lparr>Table = ''users'', Offset = 20, Limit = 10, OrderByColumn = ''name'',
                  Order = ''desc'', WhereColumn = ''id'', WhereValue = GoInt 5\<rparr>
       = (''SELECT * FROM users WHERE id = ? ORDER BY name DESC LIMIT 10 OFFSET 20'',
          [GoInt 5])"
    by code_simp
  from BuildQuery_closed_form [of opt] example show ?thesis by (intro conjI)
qed

text \<open>
  Claim C10. Whatever the other options are, the query has the \<open>WHERE\<close> clause, and the
  argument list its one value, exactly when the filter column is not empty and the filter
  value is not nil; otherwise (so also with a column and a nil value) the query goes from
  the table straight to the remaining clauses and the argument list is empty. The
  remaining clauses \<open>rest\<close> do not depend on the filter.
\<close>

theorem BuildQuery_where_needs_column_and_value:
  "\<exists>rest. \<forall>col v.
     BuildQuery (opt\<lparr>WhereColumn := col, WhereValue := v\<rparr>) =
       (if col \<noteq> '''' \<and> v \<noteq> Nil
        then (''SELECT * FROM '' @ Table opt @ '' WHERE '' @ col @ '' = ?'' @ rest, [v])
        else (''SELECT * FROM '' @ Table opt @ rest, []))"
proof -
  let ?rest =
    "(if OrderByColumn opt \<noteq> ''''
      then '' ORDER BY '' @ OrderByColumn opt @ '' '' @ ParseOrder (Order opt) else '''')
     @ (if Limit opt > 0 then '' LIMIT '' @ decimal (unat (Limit opt)) else '''')
     @ (if Offset opt > 0 then '' OFFSET '' @ decimal (unat (Offset opt)) else '''')"
  have "BuildQuery (opt\<lparr>WhereColumn := col, WhereValue := v\<rparr>) =
       (if col \<noteq> '''' \<and> v \<noteq> Nil
        then (''SELECT * FROM '' @ Table opt @ '' WHERE '' @ col @ '' = ?'' @ ?rest, [v])
        else (''SELECT * FROM '' @ Table opt @ ?rest, []))" for col v
    by (cases "col = ''''"; cases "v = Nil")
       (simp_all add: BuildQuery_closed_form split del: if_split cong del: if_weak_cong)
  then show ?thesis by blast
qed

section \<open>Properties of \<open>List\<close>\<close>

text \<open>
  Claim C9. \<open>List\<close> calls \<open>Select\<close> once, with the query and the arguments that
  \<open>BuildQuery\<close> gives for the options in which an empty table is replaced by the table
  of the record and an empty order column by the default sort column of the record, when
  it has one; the record update leaves every other field as it was given.
\<close>

theorem List_resolves_table_and_order:
  "(let opts' = opts\<lparr>Table := (if Table opts = '''' then TableName (rec r) else Table opts),
                     OrderByColumn :=
                       (if OrderByColumn opts = ''''
                        then (case SortBy (rec r) of Some b \<Rightarrow> b | None \<Rightarrow> '''')
                        else OrderByColumn opts)\<rparr>
    in List r c dest opts
         = db_Select (db r) c dest (fst (BuildQuery opts')) (snd (BuildQuery opts'))
       \<and> snd (fst (List r c dest opts))
           = snd c @ [CallSelect (fst (BuildQuery opts')) (snd (BuildQuery opts'))])"
proof (cases opts)
  case (fields tbl off lim col ord wcol wval)
  show ?thesis
    unfolding fields
    by (cases "SortBy (rec r)")
       (simp_all add: List_def Let_def db_Select_def split: prod.splits)
qed

section \<open>Properties of \<open>GetByAttrs\<close>\<close>

text \<open>
  Claim C7. With an empty attribute map \<open>GetByAttrs\<close> returns a nil error; the
  connection it returns is the one it was given, with no call added, and the destination
  is as it was.
\<close>

theorem GetByAttrs_empty_map:
  "GetByAttrs r c dest [] = (c, dest, None)"
  by (simp add: GetByAttrs_def)

text \<open>The loop collects one term per entry and the values in the same order.\<close>

lemma GetByAttrs_loop_map:
  "GetByAttrs_loop attrs (keyLines, vals) =
     (keyLines @ map (\<lambda>(k, v). k @ '' = ?'') attrs, vals @ map snd attrs)"
  by (induction attrs arbitrary: keyLines vals) auto

text \<open>
  For a map that is not empty \<open>GetByAttrs\<close> calls \<open>Get\<close> once; the terms of the
  \<open>WHERE\<close> clause are joined by a comma and a blank.
\<close>

lemma GetByAttrs_call:
  assumes "attrs \<noteq> []"
  shows "snd (fst (GetByAttrs r c dest attrs)) =
     snd c @ [CallGet (''SELECT * FROM '' @ TableName (rec r) @ '' WHERE ''
                         @ Join (map (\<lambda>(k, v). k @ '' = ?'') attrs) '', '' @ '';'')
                      (map snd attrs)]"
  using assms
  by (auto simp: GetByAttrs_def GetByAttrs_loop_map db_Get_def Let_def
           split: prod.splits option.splits)

text \<open>
  Claim C1. The claim asks for the terms \<open>col = ?\<close> joined by \<open>AND\<close>. For the map with
  the entries \<open>name\<close> and \<open>age\<close>, on any handle and in either order of iteration, the
  query that \<open>GetByAttrs\<close> sends has the two terms separated by a comma instead; the
  values are passed in the order of the terms.
\<close>

theorem GetByAttrs_two_attrs_comma:
  "snd (fst (GetByAttrs
               \<lparr>db = h, rec = \<lparr>TableName = ''users'', PrimaryKey = ''id'', SortBy = None\<rparr>\<rparr>
               (s, []) dest [(''name'', GoString ''bob''), (''age'', GoInt 3)]))
     = [CallGet ''SELECT * FROM users WHERE name = ?, age = ?;'' [GoString ''bob'', GoInt 3]]
   \<and> snd (fst (GetByAttrs
               \<lparr>db = h, rec = \<lparr>TableName = ''users'', PrimaryKey = ''id'', SortBy = None\<rparr>\<rparr>
               (s, []) dest [(''age'', GoInt 3), (''name'', GoString ''bob'')]))
     = [CallGet ''SELECT * FROM users WHERE age = ?, name = ?;'' [GoInt 3, GoString ''bob'']]"
  by (simp add: GetByAttrs_call)

section \<open>Properties of \<open>Count\<close> and \<open>DeleteByID\<close>\<close>

text \<open>
  Claim C4, as amended. For every table and primary key, let the handle answer the count
  query with the state \<open>s'\<close>, the content \<open>t\<close> of the destination \<open>total\<close> (which held 0
  at the call) and the error \<open>err\<close>. \<open>Count\<close> returns a nil error, never the no-rows
  error, when \<open>err\<close> is the no-rows error, and \<open>err\<close> itself in every other case; the
  total it returns is \<open>t\<close>, what the handle left in the destination. So a handle that
  reports no rows and has left the destination as it was makes \<open>Count\<close> return
  \<open>(0, nil)\<close>.
\<close>

theorem Count_swallows_no_rows:
  assumes "Select (db r) (fst c) 0
             (''SELECT COUNT(DISTINCT '' @ PrimaryKey (rec r) @ '') FROM '' @ TableName (rec r))
             [] = (s', t, err)"
  shows "Count r c =
     ((s', snd c @ [CallSelect (''SELECT COUNT(DISTINCT '' @ PrimaryKey (rec r) @ '') FROM ''
                                  @ TableName (rec r)) []]),
      t, if err = Some ErrNoRows then None else err)
   \<and> (err = Some ErrNoRows \<and> t = 0 \<longrightarrow>
        Count r c =
          ((s', snd c @ [CallSelect (''SELECT COUNT(DISTINCT '' @ PrimaryKey (rec r)
                                       @ '') FROM '' @ TableName (rec r)) []]),
           0, None))"
  using assms by (simp add: Count_def db_Select_def Let_def)

theorem Count_swallows_no_rows_witness:
  "Select \<lparr>Select = (\<lambda>s d q args. (Suc s, d, Some ErrNoRows)),
           Get = (\<lambda>s d q args. (Suc s, d, None)),
           Exec = (\<lambda>s q args. (Suc s, None, None))\<rparr>
      (0 :: nat) (0 :: int64) ''SELECT COUNT(DISTINCT id) FROM users'' []
     = (1, 0, Some ErrNoRows)
   \<and> Count \<lparr>db = \<lparr>Select = (\<lambda>s d q args. (Suc s, d, Some ErrNoRows)),
                   Get = (\<lambda>s d q args. (Suc s, d, None)),
                   Exec = (\<lambda>s q args. (Suc s, None, None))\<rparr>,
             rec = \<lparr>TableName = ''users'', PrimaryKey = ''id'', SortBy = None\<rparr>\<rparr>
        (0 :: nat, [])
     = ((1, [CallSelect ''SELECT COUNT(DISTINCT id) FROM users'' []]), 0, None)"
  using Count_swallows_no_rows
    [of "\<lparr>db = \<lparr>Select = (\<lambda>s d q args. (Suc s, d, Some ErrNoRows)),
                  Get = (\<lambda>s d q args. (Suc s, d, None)),
                  Exec = (\<lambda>s q args. (Suc s, None, None))\<rparr>,
            rec = \<lparr>TableName = ''users'', PrimaryKey = ''id'', SortBy = None\<rparr>\<rparr>"
        "(0 :: nat, [])" 1 0 "Some ErrNoRows"]
  by simp

text \<open>
  Claim C4 as it was stated promises the total 0 for every handle that reports no rows.
  \<open>Count\<close> never resets \<open>total\<close> (lines 43 to 46 only clear the error): on a handle
  that binds 5 to the destination and then returns the no-rows error, it returns the
  total 5 with a nil error.
\<close>

theorem Count_total_left_by_handle_counterexample:
  "Select \<lparr>Select = (\<lambda>s d q args. (Suc s, 5, Some ErrNoRows)),
           Get = (\<lambda>s d q args. (Suc s, d, None)),
           Exec = (\<lambda>s q args. (Suc s, None, None))\<rparr>
      (0 :: nat) (0 :: int64) ''SELECT COUNT(DISTINCT id) FROM users'' []
     = (1, 5, Some ErrNoRows)
   \<and> Count \<lparr>db = \<lparr>Select = (\<lambda>s d q args. (Suc s, 5, Some ErrNoRows)),
                   Get = (\<lambda>s d q args. (Suc s, d, None)),
                   Exec = (\<lambda>s q args. (Suc s, None, None))\<rparr>,
             rec = \<lparr>TableName = ''users'', PrimaryKey = ''id'', SortBy = None\<rparr>\<rparr>
        (0 :: nat, [])
     = ((1, [CallSelect ''SELECT COUNT(DISTINCT id) FROM users'' []]), 5, None)
   \<and> (5 :: int64) \<noteq> 0"
  by (simp add: Count_def db_Select_def Let_def)

text \<open>On the 64-bit targets the conversion \<open>int(n)\<close> of an \<open>int64\<close> changes nothing.\<close>

lemma scast_int64: "(scast (n :: int64) :: go_int) = n"
  by (rule scast_id)

text \<open>
  Claim C8. Let the handle answer the delete statement with the state \<open>s'\<close>, the result
  \<open>res\<close> and the error \<open>err\<close>. With an error, \<open>DeleteByID\<close> returns the count 0 and that
  error; without one, it returns the count that the result reports, as it is (0 for a nil
  result), and a nil error.
\<close>

theorem DeleteByID_count_and_error:
  assumes "Exec (db r) (fst c)
             (''DELETE FROM '' @ TableName (rec r) @ '' WHERE '' @ PrimaryKey (rec r)
                @ '' = ? LIMIT 1'') [GoInt64 id'] = (s', res, err)"
  shows "DeleteByID r c id' =
     ((s', snd c @ [CallExec (''DELETE FROM '' @ TableName (rec r) @ '' WHERE ''
                                @ PrimaryKey (rec r) @ '' = ? LIMIT 1'') [GoInt64 id']]),
      (if err \<noteq> None then 0
       else case res of None \<Rightarrow> 0 | Some x \<Rightarrow> fst (RowsAffected x)),
      err)"
  using assms
  by (auto simp: DeleteByID_def db_Exec_def GetAffectedRows_def Let_def scast_int64
           split: option.splits prod.splits)

theorem DeleteByID_count_and_error_witness:
  "Exec \<lparr>Select = (\<lambda>s d q args. (Suc s, d, None)),
         Get = (\<lambda>s d q args. (Suc s, d, None)),
         Exec = (\<lambda>s q args. (Suc s, Some \<lparr>RowsAffected = (1, None)\<rparr>, None))\<rparr>
      (0 :: nat) ''DELETE FROM users WHERE id = ? LIMIT 1'' [GoInt64 7]
     = (1, Some \<lparr>RowsAffected = (1, None)\<rparr>, None)
   \<and> DeleteByID
        \<lparr>db = \<lparr>Select = (\<lambda>s (d :: unit) q args. (Suc s, d, None)),
                Get = (\<lambda>s d q args. (Suc s, d, None)),
                Exec = (\<lambda>s q args. (Suc s, Some \<lparr>RowsAffected = (1, None)\<rparr>, None))\<rparr>,
          rec = \<lparr>TableName = ''users'', PrimaryKey = ''id'', SortBy = None\<rparr>\<rparr>
        (0 :: nat, []) 7
     = ((1, [CallExec ''DELETE FROM users WHERE id = ? LIMIT 1'' [GoInt64 7]]), 1, None)"
  using DeleteByID_count_and_error
    [of "\<lparr>db = \<lparr>Select = (\<lambda>s (d :: unit) q args. (Suc s, d, None)),
                  Get = (\<lambda>s d q args. (Suc s, d, None)),
                  Exec = (\<lambda>s q args. (Suc s, Some \<lparr>RowsAffected = (1, None)\<rparr>, None))\<rparr>,
            rec = \<lparr>TableName = ''users'', PrimaryKey = ''id'', SortBy = None\<rparr>\<rparr>"
        "(0 :: nat, [])" 7 1 "Some \<lparr>RowsAffected = (1, None)\<rparr>" None]
  by simp

section \<open>Properties of \<open>PartialUpdate\<close>\<close>





text \<open>Without a key of the schema among the attributes the loop collects nothing.\<close>

lemma PartialUpdate_loop_no_common_key:
  assumes "\<forall>key \<in> fst ` set schema. map_of attrs key = None"
  shows "PartialUpdate_loop schema attrs acc = Inr acc"
  using assms
proof (induction schema arbitrary: acc)
  case Nil
  then show ?case by simp
next
  case (Cons entry schema)
  obtain k' knd' where entry: "entry = (k', knd')" by (cases entry)
  obtain keyLines vals where acc: "acc = (keyLines, vals)" by (cases acc)
  from Cons.prems have "map_of attrs k' = None" by (simp add: entry)
  moreover from Cons.prems have "PartialUpdate_loop schema attrs acc = Inr acc"
    using Cons.IH by simp
  ultimately show ?case by (simp add: entry acc)
qed

text \<open>
  Claim C6. For every id, when the schema is empty, or the attribute map is empty, or no
  key of the schema has a value in the attribute map, \<open>PartialUpdate\<close> returns the count
  0 and a nil error, and the connection it was given: the handle was not called.
\<close>

theorem PartialUpdate_nothing_to_update:
  assumes "schema = [] \<or> attrs = [] \<or> (\<forall>key \<in> fst ` set schema. map_of attrs key = None)"
  shows "PartialUpdate r c id' schema attrs = (c, 0, None)"
proof (cases "schema = [] \<or> attrs = []")
  case True
  then show ?thesis by (auto simp: PartialUpdate_def)
next
  case False
  with assms have "\<forall>key \<in> fst ` set schema. map_of attrs key = None" by simp
  then have "PartialUpdate_loop schema attrs ([], []) = Inr ([], [])"
    by (rule PartialUpdate_loop_no_common_key)
  then show ?thesis by (simp add: PartialUpdate_def)
qed

theorem PartialUpdate_nothing_to_update_witness:
  "fst ` set [(''name'', reflect_String)] = {''name''}
   \<and> map_of [(''age'', GoInt 3)] ''name'' = None
   \<and> PartialUpdate
        \<lparr>db = \<lparr>Select = (\<lambda>s (d :: unit) q args. (Suc s, d, None)),
                Get = (\<lambda>s d q args. (Suc s, d, None)),
                Exec = (\<lambda>s q args. (Suc s, Some \<lparr>RowsAffected = (1, None)\<rparr>, None))\<rparr>,
          rec = \<lparr>TableName = ''users'', PrimaryKey = ''id'', SortBy = None\<rparr>\<rparr>
        (0 :: nat, []) 7 [(''name'', reflect_String)] [(''age'', GoInt 3)]
     = ((0, []), 0, None)"
  using PartialUpdate_nothing_to_update
    [of "[(''name'', reflect_String)]" "[(''age'', GoInt 3)]"
        "\<lparr>db = \<lparr>Select = (\<lambda>s (d :: unit) q args. (Suc s, d, None)),
                  Get = (\<lambda>s d q args. (Suc s, d, None)),
                  Exec = (\<lambda>s q args. (Suc s, Some \<lparr>RowsAffected = (1, None)\<rparr>, None))\<rparr>,
            rec = \<lparr>TableName = ''users'', PrimaryKey = ''id'', SortBy = None\<rparr>\<rparr>"
        "(0 :: nat, [])" 7]
  by simp

end
